theory Spec2Isabelle
  imports Complex_Main "HOL-Library.List_Lexorder" "HOL-Library.Char_ord"
begin

section \<open>JavaScript values\<close>

text \<open>
  The worker (\<^verbatim>\<open>src/index.ts\<close>) computes with JavaScript numbers that are either
  integers or \<^verbatim>\<open>NaN\<close> (the result of \<^verbatim>\<open>parseInt\<close> on a string without digits).
  Integers are modelled as mathematical integers, which is what IEEE doubles compute for
  \<^verbatim>\<open>+\<close>, \<^verbatim>\<open>*\<close> and \<^verbatim>\<open>Math.floor(x / 1000)\<close> as long as every value stays
  a safe integer (magnitude below \<open>2 ^ 53\<close>); negative zero is identified with zero, which
  no operation of the worker distinguishes. Strings are byte strings (the UTF-8 form in
  which the key-value store keeps keys and values).
\<close>

datatype number = NaN | Num int

fun plus_number :: "number \<Rightarrow> number \<Rightarrow> number" where
  "plus_number (Num a) (Num b) = Num (a + b)"
| "plus_number _ _ = NaN"

fun times_number :: "number \<Rightarrow> number \<Rightarrow> number" where
  "times_number (Num a) (Num b) = Num (a * b)"
| "times_number _ _ = NaN"

text \<open>\<^verbatim>\<open>a === b\<close> on numbers: \<^verbatim>\<open>NaN\<close> equals nothing, not even itself.\<close>

fun strict_equals :: "number \<Rightarrow> number \<Rightarrow> bool" where
  "strict_equals (Num a) (Num b) = (a = b)"
| "strict_equals _ _ = False"

text \<open>\<^verbatim>\<open>Math.floor(a / d)\<close> for an integer \<open>a\<close> and a positive integer constant \<open>d\<close>.\<close>

fun floor_quotient :: "number \<Rightarrow> int \<Rightarrow> number" where
  "floor_quotient (Num a) d = Num (a div d)"
| "floor_quotient NaN d = NaN"

subsection \<open>Strings\<close>

definition startsWith :: "string \<Rightarrow> string \<Rightarrow> bool" where
  "startsWith s p \<longleftrightarrow> take (length p) s = p"

definition endsWith :: "string \<Rightarrow> string \<Rightarrow> bool" where
  "endsWith s p \<longleftrightarrow> length p \<le> length s \<and> drop (length s - length p) s = p"

subsection \<open>Number to string (template literals) and \<^verbatim>\<open>parseInt\<close>\<close>

definition digit :: "nat \<Rightarrow> char" where
  "digit d = ''0123456789'' ! d"

fun decimal :: "nat \<Rightarrow> string" where
  "decimal n = (if n < 10 then [digit n] else decimal (n div 10) @ [digit (n mod 10)])"

declare decimal.simps [simp del]

text \<open>\<^verbatim>\<open>`${x}`\<close>: the decimal form of an integer, \<^verbatim>\<open>"NaN"\<close> for \<^verbatim>\<open>NaN\<close>.\<close>

definition toString :: "number \<Rightarrow> string" where
  "toString x =
     (case x of
        NaN \<Rightarrow> ''NaN''
      | Num n \<Rightarrow> if n < 0 then CHR ''-'' # decimal (nat (- n)) else decimal (nat n))"

definition isWhiteSpace :: "char \<Rightarrow> bool" where
  "isWhiteSpace c \<longleftrightarrow> c \<in> set [CHR 0x09, CHR 0x0A, CHR 0x0B, CHR 0x0C, CHR 0x0D, CHR '' '']"

text \<open>
  The value of a character as a digit: \<open>0\<close> to \<open>9\<close>, then letters of either case from
  \<open>10\<close>; \<open>36\<close> for a character that is no digit in any radix.
\<close>

definition digitValue :: "char \<Rightarrow> nat" where
  "digitValue c =
     (let n = (of_char c :: nat) in
      if 48 \<le> n \<and> n \<le> 57 then n - 48
      else if 97 \<le> n \<and> n \<le> 122 then n - 87
      else if 65 \<le> n \<and> n \<le> 90 then n - 55
      else 36)"

text \<open>
  \<^verbatim>\<open>parseInt(s)\<close> with no radix argument, as ECMAScript defines it: leading white space
  is skipped (the ASCII white space characters; the store holds what the worker wrote),
  a sign is read, a \<^verbatim>\<open>0x\<close> prefix selects radix 16, and the longest prefix of digits is
  the value; no digit at all gives \<^verbatim>\<open>NaN\<close>.
\<close>

definition parseInt :: "string \<Rightarrow> number" where
  "parseInt s =
     (let s1 = dropWhile isWhiteSpace s;
          negative = (s1 \<noteq> [] \<and> hd s1 = CHR ''-'');
          s2 = (if s1 \<noteq> [] \<and> (hd s1 = CHR ''+'' \<or> hd s1 = CHR ''-'') then tl s1 else s1);
          hex = (startsWith s2 ''0x'' \<or> startsWith s2 ''0X'');
          R = (if hex then 16 else 10);
          s3 = (if hex then drop 2 s2 else s2);
          Z = takeWhile (\<lambda>c. digitValue c < R) s3;
          v = foldl (\<lambda>acc c. acc * R + digitValue c) 0 Z
      in if Z = [] then NaN else Num (if negative then - int v else int v))"

subsection \<open>\<^verbatim>\<open>encodeURIComponent\<close>\<close>

definition uriUnreserved :: "char \<Rightarrow> bool" where
  "uriUnreserved c \<longleftrightarrow>
     (let n = (of_char c :: nat) in
      (48 \<le> n \<and> n \<le> 57) \<or> (65 \<le> n \<and> n \<le> 90) \<or> (97 \<le> n \<and> n \<le> 122)
      \<or> c \<in> set ''-_.!~*'()'')"

definition hexDigit :: "nat \<Rightarrow> char" where
  "hexDigit d = ''0123456789ABCDEF'' ! d"

definition encodeURIComponent :: "string \<Rightarrow> string" where
  "encodeURIComponent s =
     concat (map (\<lambda>c. if uriUnreserved c then [c]
                       else [CHR ''%'', hexDigit (of_char c div 16), hexDigit (of_char c mod 16)]) s)"

subsection \<open>\<^verbatim>\<open>Math.random\<close>\<close>

text \<open>
  \<^verbatim>\<open>rand(max)\<close> is \<^verbatim>\<open>Math.floor(Math.random() * max)\<close>. The value of
  \<^verbatim>\<open>Math.random()\<close>, a fraction \<open>r\<close> with \<open>0 \<le> r < 1\<close>, is an argument of the model.
\<close>

fun rand :: "real \<Rightarrow> number \<Rightarrow> number" where
  "rand r (Num m) = Num \<lfloor>r * of_int m\<rfloor>"
| "rand r NaN = NaN"

section \<open>The key-value store\<close>

text \<open>
  The store (\<^verbatim>\<open>KVNamespace\<close>) is a finite map from keys to values, kept as an
  association list. \<^verbatim>\<open>list({prefix})\<close> returns the keys that start with the prefix, in
  lexicographic order of their bytes, at most 1000 of them. Reads and writes of the store
  always succeed in this model.
\<close>

type_synonym kv = "(string \<times> string) list"

definition KV_get :: "kv \<Rightarrow> string \<Rightarrow> string option" where
  "KV_get s k = map_of s k"

fun KV_put :: "kv \<Rightarrow> string \<Rightarrow> string \<Rightarrow> kv" where
  "KV_put [] k v = [(k, v)]"
| "KV_put ((k', v') # s) k v = (if k' = k then (k, v) # s else (k', v') # KV_put s k v)"

definition KV_matching :: "kv \<Rightarrow> string \<Rightarrow> string list" where
  "KV_matching s p = sort (remdups (filter (\<lambda>k. startsWith k p) (map fst s)))"

definition KV_list :: "kv \<Rightarrow> string \<Rightarrow> string list" where
  "KV_list s p = take 1000 (KV_matching s p)"

section \<open>The worker\<close>

record Env =
  KV :: kv
  SECRET :: "string option"
  ALLOWED_ORIGIN :: string

text \<open>
  A request: its method, its full URL, the value of its \<^verbatim>\<open>Authorization\<close> header
  (\<open>None\<close> when absent) and its body as \<^verbatim>\<open>request.text()\<close> returns it.
\<close>

record Request =
  req_method :: string
  req_url :: string
  authorization :: "string option"
  req_body :: string

text \<open>
  A response: its status (200 unless given), its body (\<open>None\<close> for \<^verbatim>\<open>null\<close>) and the
  headers that the worker sets itself.
\<close>

record Response =
  status_code :: nat
  body :: "string option"
  headers :: "(string \<times> string) list"

text \<open>An exception that leaves a handler; the worker catches none but that of \<^verbatim>\<open>new URL\<close>.\<close>

datatype js_error = TypeError

definition status :: "nat \<Rightarrow> Response" where
  "status n = \<lparr>status_code = n, body = None, headers = []\<rparr>"

record CountAndPrefix =
  urlCount :: number
  urlPrefix :: number

text \<open>\<^verbatim>\<open>(await env.KV.get(k)) || "0"\<close>: an absent key and an empty value both give \<^verbatim>\<open>"0"\<close>.\<close>

definition or_zero :: "string option \<Rightarrow> string" where
  "or_zero x = (case x of None \<Rightarrow> ''0'' | Some v \<Rightarrow> if v = [] then ''0'' else v)"

definition getUrlCount :: "Env \<Rightarrow> number" where
  "getUrlCount env = parseInt (or_zero (KV_get (KV env) ''urlCount''))"

definition getUrlPrefix :: "Env \<Rightarrow> number" where
  "getUrlPrefix env = parseInt (or_zero (KV_get (KV env) ''urlPrefix''))"

definition getUrlCountAndPrefix :: "Env \<Rightarrow> CountAndPrefix" where
  "getUrlCountAndPrefix env = \<lparr>urlCount = getUrlCount env, urlPrefix = getUrlPrefix env\<rparr>"

text \<open>
  The gate of \<^verbatim>\<open>handleCreate\<close> and \<^verbatim>\<open>handleStats\<close>:
  \<^verbatim>\<open>env.SECRET && request.headers.get("Authorization") !== `Secret ${env.SECRET}`\<close>.
  An empty secret is falsy, as an absent one.
\<close>

definition secretMismatch :: "Env \<Rightarrow> Request \<Rightarrow> bool" where
  "secretMismatch env request =
     (case SECRET env of
        None \<Rightarrow> False
      | Some s \<Rightarrow> s \<noteq> [] \<and> authorization request \<noteq> Some (''Secret '' @ s))"

text \<open>
  \<^verbatim>\<open>handleCreate\<close>. Whether \<^verbatim>\<open>new URL(url)\<close> accepts a string is the argument
  \<open>parses\<close>; \<open>now\<close> is \<^verbatim>\<open>new Date().getTime()\<close>. The result is the response and the
  store after the request.
\<close>

definition handleCreate :: "(string \<Rightarrow> bool) \<Rightarrow> int \<Rightarrow> Env \<Rightarrow> Request \<Rightarrow> Response \<times> kv" where
  "handleCreate parses now env request =
     (if secretMismatch env request then (status 401, KV env)
      else
        let cp = getUrlCountAndPrefix env;
            url = req_body request
        in if \<not> startsWith url ''http://'' \<and> \<not> startsWith url ''https://'' then (status 400, KV env)
           else if \<not> parses url then (status 400, KV env)
           else
             let urlKey = ''url.'' @ toString (urlPrefix cp) @ ''.'' @ toString (Num now);
                 kv1 = KV_put (KV env) urlKey url;
                 kv2 = KV_put kv1 (''urlKey.'' @ encodeURIComponent url) urlKey;
                 count = plus_number (urlCount cp) (Num 1)
             in if strict_equals count (Num 1000)
                then (status 201,
                      KV_put (KV_put kv2 ''urlPrefix'' (toString (plus_number (urlPrefix cp) (Num 1))))
                        ''urlCount'' ''0'')
                else (status 201, KV_put kv2 ''urlCount'' (toString count)))"

text \<open>\<^verbatim>\<open>JSON.stringify({urlCount, urlPrefix}, undefined, 4)\<close>; \<^verbatim>\<open>NaN\<close> prints as \<^verbatim>\<open>null\<close>.\<close>

definition jsonNumber :: "number \<Rightarrow> string" where
  "jsonNumber x = (case x of NaN \<Rightarrow> ''null'' | Num n \<Rightarrow> toString x)"

definition stringify :: "CountAndPrefix \<Rightarrow> string" where
  "stringify cp =
     ''{'' @ [CHR 0x0A] @ ''    '' @ [CHR 0x22] @ ''urlCount'' @ [CHR 0x22] @ '': '' @ jsonNumber (urlCount cp)
       @ '','' @ [CHR 0x0A] @ ''    '' @ [CHR 0x22] @ ''urlPrefix'' @ [CHR 0x22] @ '': '' @ jsonNumber (urlPrefix cp)
       @ [CHR 0x0A] @ ''}''"

definition handleStats :: "Env \<Rightarrow> Request \<Rightarrow> Response" where
  "handleStats env request =
     (if secretMismatch env request then status 401
      else \<lparr>status_code = 200, body = Some (stringify (getUrlCountAndPrefix env)), headers = []\<rparr>)"

definition estimatedTotalUrlCount :: "number \<Rightarrow> number \<Rightarrow> number" where
  "estimatedTotalUrlCount count pre = plus_number (times_number pre (Num 1000)) count"

definition targetUrlPrefix :: "number \<Rightarrow> number" where
  "targetUrlPrefix estimatedTargetUrl = floor_quotient estimatedTargetUrl 1000"

text \<open>
  \<^verbatim>\<open>results.keys[i].name\<close>: an index outside the array (or \<^verbatim>\<open>NaN\<close>) reads
  \<^verbatim>\<open>undefined\<close>, and the property access on it throws a \<^verbatim>\<open>TypeError\<close>.
\<close>

fun key_name :: "string list \<Rightarrow> number \<Rightarrow> js_error + string" where
  "key_name keys (Num i) = (if 0 \<le> i \<and> i < int (length keys) then Inr (keys ! nat i) else Inl TypeError)"
| "key_name keys NaN = Inl TypeError"

text \<open>
  \<^verbatim>\<open>handleGet\<close>; \<open>r1\<close> and \<open>r2\<close> are the values of its two calls of \<^verbatim>\<open>Math.random()\<close>.
  It does not write to the store.
\<close>

definition handleGet :: "real \<Rightarrow> real \<Rightarrow> Env \<Rightarrow> Request \<Rightarrow> js_error + Response" where
  "handleGet r1 r2 env request =
     (if endsWith (req_url request) ''/stats'' then Inr (handleStats env request)
      else
        let cp = getUrlCountAndPrefix env;
            total = estimatedTotalUrlCount (urlCount cp) (urlPrefix cp);
            estimatedTargetUrl = rand r1 total;
            results = KV_list (KV env) (''url.'' @ toString (targetUrlPrefix estimatedTargetUrl))
        in case key_name results (rand r2 (Num (int (length results)))) of
             Inl e \<Rightarrow> Inl e
           | Inr name \<Rightarrow>
               Inr \<lparr>status_code = 200, body = KV_get (KV env) name,
                    headers = [(''Access-Control-Allow-Origin'', ALLOWED_ORIGIN env)]\<rparr>)"

text \<open>The entry point: dispatch on the method.\<close>

definition fetch ::
  "(string \<Rightarrow> bool) \<Rightarrow> int \<Rightarrow> real \<Rightarrow> real \<Rightarrow> Request \<Rightarrow> Env \<Rightarrow> (js_error + Response) \<times> kv" where
  "fetch parses now r1 r2 request env =
     (if req_method request = ''POST''
      then (Inr (fst (handleCreate parses now env request)), snd (handleCreate parses now env request))
      else if req_method request = ''GET'' then (handleGet r1 r2 env request, KV env)
      else (Inr (status 405), KV env))"

text \<open>
  Submissions handled one after the other: each is a request with the clock reading at
  which it is handled, and each sees the store the one before it left.
\<close>

fun submissions :: "(string \<Rightarrow> bool) \<Rightarrow> Env \<Rightarrow> (Request \<times> int) list \<Rightarrow> Env" where
  "submissions parses env [] = env"
| "submissions parses env ((request, now) # rest) =
     submissions parses (env\<lparr>KV := snd (handleCreate parses now env request)\<rparr>) rest"

section \<open>Notions used in the statements\<close>

text \<open>
  The key under which a submission handled at clock reading \<open>now\<close> stores its URL:
  \<^verbatim>\<open>`url.${urlPrefix}.${new Date().getTime()}`\<close>.
\<close>

definition entryKey :: "Env \<Rightarrow> int \<Rightarrow> string" where
  "entryKey env now = ''url.'' @ toString (urlPrefix (getUrlCountAndPrefix env)) @ ''.'' @ toString (Num now)"

text \<open>
  A submission passes the gate and both validations of \<^verbatim>\<open>handleCreate\<close>; these are the
  submissions answered with status 201.
\<close>

definition accepted :: "(string \<Rightarrow> bool) \<Rightarrow> Env \<Rightarrow> Request \<Rightarrow> bool" where
  "accepted parses env request \<longleftrightarrow>
     \<not> secretMismatch env request
     \<and> (startsWith (req_body request) ''http://'' \<or> startsWith (req_body request) ''https://'')
     \<and> parses (req_body request)"

text \<open>
  The shard and the clock reading of every accepted submission of a sequence, in order: the
  value of \<^verbatim>\<open>urlPrefix\<close> that the submission loads and its \<^verbatim>\<open>new Date().getTime()\<close>,
  the two parts of the key under which it stores its URL.
\<close>

fun stamps :: "(string \<Rightarrow> bool) \<Rightarrow> Env \<Rightarrow> (Request \<times> int) list \<Rightarrow> (number \<times> int) list" where
  "stamps parses env [] = []"
| "stamps parses env ((request, now) # rest) =
     (if accepted parses env request then [(urlPrefix (getUrlCountAndPrefix env), now)] else [])
     @ stamps parses (env\<lparr>KV := snd (handleCreate parses now env request)\<rparr>) rest"

text \<open>
  An empty store without a secret, a submission of a URL and a retrieval by the request's
  URL, for the concrete runs below.
\<close>

definition emptyEnv :: Env where
  "emptyEnv = \<lparr>KV = [], SECRET = None, ALLOWED_ORIGIN = ''*''\<rparr>"

definition postOf :: "string \<Rightarrow> Request" where
  "postOf u = \<lparr>req_method = ''POST'', req_url = ''https://r.example/'', authorization = None, req_body = u\<rparr>"

definition getOf :: "string \<Rightarrow> Request" where
  "getOf u = \<lparr>req_method = ''GET'', req_url = u, authorization = None, req_body = ''''\<rparr>"

text \<open>The same submission at each of the clock readings \<open>m, \<dots>, n - 1\<close>.\<close>

definition ticks :: "Request \<Rightarrow> nat \<Rightarrow> nat \<Rightarrow> (Request \<times> int) list" where
  "ticks request m n = map (\<lambda>t. (request, int t)) [m..<n]"

section \<open>Numbers and strings\<close>

lemma digit_cases:
  assumes "d < 10"
  shows "d = 0 \<or> d = 1 \<or> d = 2 \<or> d = 3 \<or> d = 4 \<or> d = 5 \<or> d = 6 \<or> d = 7 \<or> d = 8 \<or> d = (9::nat)"
  using assms by arith

lemma digitValue_digit: "d < 10 \<Longrightarrow> digitValue (digit d) = d"
  using digit_cases [of d] by (auto simp: digit_def digitValue_def)

lemma digit_not_special:
  "d < 10 \<Longrightarrow> \<not> isWhiteSpace (digit d) \<and> digit d \<noteq> CHR ''-'' \<and> digit d \<noteq> CHR ''+'' \<and> digit d \<noteq> CHR ''.''"
  using digit_cases [of d] by (auto simp: digit_def isWhiteSpace_def)

lemma decimal_not_Nil: "decimal n \<noteq> []"
  by (subst decimal.simps) simp

lemma set_decimal: "c \<in> set (decimal n) \<Longrightarrow> \<exists>d<10. c = digit d"
proof (induction n rule: decimal.induct)
  case (1 n)
  show ?case
  proof (cases "n < 10")
    case True
    with "1.prems" show ?thesis by (subst (asm) decimal.simps) auto
  next
    case False
    with "1.prems" have "c \<in> set (decimal (n div 10)) \<or> c = digit (n mod 10)"
      by (subst (asm) decimal.simps) auto
    then show ?thesis
    proof
      assume "c \<in> set (decimal (n div 10))"
      with False "1.IH" show ?thesis by simp
    next
      assume "c = digit (n mod 10)"
      moreover have "n mod 10 < 10" by simp
      ultimately show ?thesis by blast
    qed
  qed
qed

lemma decimal_value: "foldl (\<lambda>acc c. acc * 10 + digitValue c) 0 (decimal n) = n"
proof (induction n rule: decimal.induct)
  case (1 n)
  show ?case
  proof (cases "n < 10")
    case True
    then show ?thesis by (subst decimal.simps) (simp add: digitValue_digit)
  next
    case False
    with "1.IH" show ?thesis
      by (subst decimal.simps) (simp add: digitValue_digit)
  qed
qed

lemma hd_decimal: "\<exists>d<10. hd (decimal n) = digit d"
  using set_decimal [of "hd (decimal n)" n] decimal_not_Nil [of n] by simp

lemma decimal_not_hex: "\<not> startsWith (decimal n) [CHR ''0'', x] \<or> digitValue x < 10"
proof (cases "startsWith (decimal n) [CHR ''0'', x]")
  case True
  then have eq: "take (length [CHR ''0'', x]) (decimal n) = [CHR ''0'', x]"
    unfolding startsWith_def .
  have "x \<in> set [CHR ''0'', x]" by simp
  then have "x \<in> set (take (length [CHR ''0'', x]) (decimal n))" by (simp only: eq)
  then have "x \<in> set (decimal n)" by (rule in_set_takeD)
  then show ?thesis using set_decimal digitValue_digit by fastforce
qed simp

lemma parseInt_decimal: "parseInt (decimal n) = Num (int n)"
proof -
  obtain d where d: "d < 10" "hd (decimal n) = digit d" using hd_decimal by blast
  have s1: "dropWhile isWhiteSpace (decimal n) = decimal n"
    using d digit_not_special [of d] by (simp add: dropWhile_eq_self_iff)
  have sign: "hd (decimal n) \<noteq> CHR ''+''" "hd (decimal n) \<noteq> CHR ''-''"
    using d digit_not_special [of d] by simp_all
  have hex: "\<not> startsWith (decimal n) ''0x''" "\<not> startsWith (decimal n) ''0X''"
    using decimal_not_hex [of n "CHR ''x''"] decimal_not_hex [of n "CHR ''X''"]
    by (simp_all add: digitValue_def)
  have Z: "takeWhile (\<lambda>c. digitValue c < 10) (decimal n) = decimal n"
    using set_decimal digitValue_digit by (fastforce simp: takeWhile_eq_all_conv)
  show ?thesis
    by (simp add: parseInt_def Let_def s1 sign hex Z decimal_value decimal_not_Nil)
qed

lemma parseInt_toString [simp]: "parseInt (toString (Num n)) = Num n"
proof (cases "n < 0")
  case False
  then show ?thesis by (simp add: toString_def parseInt_decimal)
next
  case True
  let ?m = "nat (- n)"
  obtain d where d: "d < 10" "hd (decimal ?m) = digit d" using hd_decimal by blast
  have sign: "hd (decimal ?m) \<noteq> CHR ''+''" "hd (decimal ?m) \<noteq> CHR ''-''"
    using d digit_not_special [of d] by simp_all
  have hex: "\<not> startsWith (decimal ?m) ''0x''" "\<not> startsWith (decimal ?m) ''0X''"
    using decimal_not_hex [of ?m "CHR ''x''"] decimal_not_hex [of ?m "CHR ''X''"]
    by (simp_all add: digitValue_def)
  have Z: "takeWhile (\<lambda>c. digitValue c < 10) (decimal ?m) = decimal ?m"
    using set_decimal digitValue_digit by (fastforce simp: takeWhile_eq_all_conv)
  have ws: "\<not> isWhiteSpace CHR ''-''" by (simp add: isWhiteSpace_def)
  show ?thesis using True
    by (simp add: toString_def parseInt_def Let_def ws hex Z decimal_value decimal_not_Nil)
qed

lemma toString_inj: "toString (Num a) = toString (Num b) \<Longrightarrow> a = b"
  by (metis parseInt_toString number.inject)

lemma parseInt_zero: "parseInt ''0'' = Num 0"
  by (simp add: parseInt_def startsWith_def digitValue_def isWhiteSpace_def)

lemma parseInt_toString_any: "parseInt (toString x) = x"
proof (cases x)
  case NaN
  then show ?thesis
    by (simp add: toString_def parseInt_def startsWith_def digitValue_def isWhiteSpace_def)
next
  case (Num n)
  then show ?thesis by simp
qed

lemma toString_inj_any: "toString x = toString y \<Longrightarrow> x = y"
  by (metis parseInt_toString_any)

lemma toString_not_Nil [simp]: "toString x \<noteq> []"
  by (cases x) (simp_all add: toString_def decimal_not_Nil)

lemma toString_no_dot: "CHR ''.'' \<notin> set (toString x)"
proof (cases x)
  case NaN
  then show ?thesis by (simp add: toString_def)
next
  case (Num n)
  have "CHR ''.'' \<notin> set (decimal m)" for m
  proof
    assume "CHR ''.'' \<in> set (decimal m)"
    then obtain d where "d < 10" and "CHR ''.'' = digit d" using set_decimal by blast
    with digit_not_special [of d] show False by metis
  qed
  then show ?thesis using Num by (simp add: toString_def)
qed

lemma split_at_unique:
  assumes "c \<notin> set a" and "c \<notin> set a'" and "a @ c # b = a' @ c # b'"
  shows "a = a' \<and> b = b'"
proof -
  have "takeWhile (\<lambda>x. x \<noteq> c) (a @ c # b) = a"
    using assms(1) by (subst takeWhile_append2) auto
  moreover have "takeWhile (\<lambda>x. x \<noteq> c) (a' @ c # b') = a'"
    using assms(2) by (subst takeWhile_append2) auto
  ultimately have "a = a'" using assms(3) by simp
  with assms(3) show ?thesis by simp
qed

lemma entry_key_inj:
  assumes "''url.'' @ toString P @ ''.'' @ toString (Num t) = ''url.'' @ toString P' @ ''.'' @ toString (Num t')"
  shows "P = P' \<and> t = t'"
proof -
  from assms have "toString P @ CHR ''.'' # toString (Num t) = toString P' @ CHR ''.'' # toString (Num t')"
    by simp
  from split_at_unique [OF toString_no_dot toString_no_dot this]
  have "toString P = toString P'" and "toString (Num t) = toString (Num t')" by simp_all
  then show ?thesis by (auto dest: toString_inj toString_inj_any)
qed



text \<open>With \<^verbatim>\<open>Math.random()\<close> in \<open>[0, 1)\<close>, the draw below a positive bound is in range.\<close>

lemma rand_within:
  assumes "0 \<le> r" and "r < 1" and "0 < m"
  shows "rand r (Num m) = Num \<lfloor>r * of_int m\<rfloor> \<and> 0 \<le> \<lfloor>r * of_int m\<rfloor> \<and> \<lfloor>r * of_int m\<rfloor> < m"
proof -
  have "0 \<le> r * of_int m" using assms by simp
  moreover have "r * of_int m < of_int m" using assms by simp
  ultimately show ?thesis by (simp add: floor_less_iff)
qed


section \<open>The store and one submission\<close>

lemma KV_get_put: "KV_get (KV_put s k v) k' = (if k' = k then Some v else KV_get s k')"
  by (induction s) (auto simp: KV_get_def)

lemma status_eq [simp]: "status a = status b \<longleftrightarrow> a = b"
  by (simp add: status_def)

lemma handleCreate_status:
  "fst (handleCreate parses now env request) =
     (if secretMismatch env request then status 401
      else if accepted parses env request then status 201 else status 400)"
  by (auto simp: handleCreate_def accepted_def Let_def)

lemma handleCreate_rejected:
  "\<not> accepted parses env request \<Longrightarrow> snd (handleCreate parses now env request) = KV env"
  by (auto simp: handleCreate_def accepted_def Let_def)

lemma handleCreate_get:
  assumes "accepted parses env request"
  shows "KV_get (snd (handleCreate parses now env request)) k =
     (let cp = getUrlCountAndPrefix env; count = plus_number (urlCount cp) (Num 1) in
      if k = ''urlCount'' then Some (if strict_equals count (Num 1000) then ''0'' else toString count)
      else if k = ''urlPrefix'' \<and> strict_equals count (Num 1000)
        then Some (toString (plus_number (urlPrefix cp) (Num 1)))
      else if k = ''urlKey.'' @ encodeURIComponent (req_body request) then Some (entryKey env now)
      else if k = entryKey env now then Some (req_body request)
      else KV_get (KV env) k)"
  using assms
  by (auto simp: handleCreate_def accepted_def Let_def KV_get_put entryKey_def)

lemma counters_KV:
  "getUrlCountAndPrefix (env\<lparr>KV := s\<rparr>) =
     \<lparr>urlCount = parseInt (or_zero (KV_get s ''urlCount'')),
      urlPrefix = parseInt (or_zero (KV_get s ''urlPrefix''))\<rparr>"
  by (simp add: getUrlCountAndPrefix_def getUrlCount_def getUrlPrefix_def)

lemma or_zero_toString [simp]: "or_zero (Some (toString x)) = toString x"
  by (simp add: or_zero_def)

lemma or_zero_0 [simp]: "or_zero (Some ''0'') = ''0''"
  by (simp add: or_zero_def)

lemma entryKey_not_counter [simp]:
  "entryKey env now \<noteq> ''urlCount''" "''urlCount'' \<noteq> entryKey env now"
  "entryKey env now \<noteq> ''urlPrefix''" "''urlPrefix'' \<noteq> entryKey env now"
  "entryKey env now \<noteq> ''urlKey.'' @ x" "''urlKey.'' @ x \<noteq> entryKey env now"
  by (simp_all add: entryKey_def)

lemma handleCreate_accepted_counter:
  assumes "getUrlCountAndPrefix env = \<lparr>urlCount = Num c, urlPrefix = Num p\<rparr>"
    and "accepted parses env request"
  shows "getUrlCountAndPrefix (env\<lparr>KV := snd (handleCreate parses now env request)\<rparr>) =
     (if c + 1 = 1000 then \<lparr>urlCount = Num 0, urlPrefix = Num (p + 1)\<rparr>
      else \<lparr>urlCount = Num (c + 1), urlPrefix = Num p\<rparr>)"
proof -
  have p: "parseInt (or_zero (KV_get (KV env) ''urlPrefix'')) = Num p"
    using assms(1) by (simp add: getUrlCountAndPrefix_def getUrlPrefix_def)
  show ?thesis
    by (simp add: counters_KV handleCreate_get [OF assms(2)] assms(1) Let_def parseInt_zero p)
qed

lemma counters_cong: "KV env = KV env' \<Longrightarrow> getUrlCountAndPrefix env = getUrlCountAndPrefix env'"
  by (simp add: getUrlCountAndPrefix_def getUrlCount_def getUrlPrefix_def)

lemma counters_empty:
  "KV env = [] \<Longrightarrow> getUrlCountAndPrefix env = \<lparr>urlCount = Num 0, urlPrefix = Num 0\<rparr>"
  by (simp add: getUrlCountAndPrefix_def getUrlCount_def getUrlPrefix_def KV_get_def or_zero_def
      parseInt_zero)

lemma entryKey_startsWith: "startsWith (entryKey env now) ''url.''"
  by (simp add: entryKey_def startsWith_def)

lemma handleCreate_other_key:
  assumes "k \<noteq> entryKey env now" and "startsWith k ''url.''"
  shows "KV_get (snd (handleCreate parses now env request)) k = KV_get (KV env) k"
proof (cases "accepted parses env request")
  case True
  from assms(2) have "k \<noteq> ''urlCount''" "k \<noteq> ''urlPrefix''"
    "k \<noteq> ''urlKey.'' @ encodeURIComponent (req_body request)"
    by (auto simp: startsWith_def)
  with assms(1) show ?thesis by (simp add: handleCreate_get [OF True] Let_def)
next
  case False
  then show ?thesis by (simp add: handleCreate_rejected)
qed

lemma handleCreate_entry:
  assumes "accepted parses env request"
  shows "KV_get (snd (handleCreate parses now env request)) (entryKey env now) = Some (req_body request)"
  using entryKey_not_counter(5) [of env now "encodeURIComponent (req_body request)"]
  by (simp add: handleCreate_get [OF assms] Let_def)

section \<open>Sequences of submissions\<close>

lemma accepted_KV [simp]: "accepted parses (env\<lparr>KV := s\<rparr>) request = accepted parses env request"
  by (simp add: accepted_def secretMismatch_def)

lemma accepted_submissions [simp]:
  "accepted parses (submissions parses env posts) request = accepted parses env request"
proof (induction posts arbitrary: env)
  case Nil
  show ?case by simp
next
  case (Cons post posts)
  obtain r t where post: "post = (r, t)" by (cases post)
  show ?case
    using Cons.IH [of "env\<lparr>KV := snd (handleCreate parses t env r)\<rparr>"] by (simp add: post)
qed

lemma handleCreate_invariant:
  assumes "getUrlCountAndPrefix env = \<lparr>urlCount = Num c, urlPrefix = Num p\<rparr>"
    and "0 \<le> c" and "c < 1000" and "0 \<le> p"
  shows "\<exists>c' p'. getUrlCountAndPrefix (env\<lparr>KV := snd (handleCreate parses now env request)\<rparr>)
            = \<lparr>urlCount = Num c', urlPrefix = Num p'\<rparr> \<and> 0 \<le> c' \<and> c' < 1000 \<and> 0 \<le> p'"
proof (cases "accepted parses env request")
  case True
  from handleCreate_accepted_counter [OF assms(1) True, of now] assms(2-4) show ?thesis
    by (cases "c + 1 = 1000") auto
next
  case False
  then have "getUrlCountAndPrefix (env\<lparr>KV := snd (handleCreate parses now env request)\<rparr>)
     = getUrlCountAndPrefix env"
    by (intro counters_cong) (simp add: handleCreate_rejected)
  with assms show ?thesis by auto
qed

lemma submissions_invariant:
  assumes "getUrlCountAndPrefix env = \<lparr>urlCount = Num c, urlPrefix = Num p\<rparr>"
    and "0 \<le> c" and "c < 1000" and "0 \<le> p"
  shows "\<exists>c' p'. getUrlCountAndPrefix (submissions parses env posts)
            = \<lparr>urlCount = Num c', urlPrefix = Num p'\<rparr> \<and> 0 \<le> c' \<and> c' < 1000 \<and> 0 \<le> p'"
  using assms
proof (induction posts arbitrary: env c p)
  case Nil
  then show ?case by auto
next
  case (Cons post posts)
  obtain request now where post: "post = (request, now)" by (cases post)
  from handleCreate_invariant [OF Cons.prems, of parses now request]
  obtain c' p' where
    "getUrlCountAndPrefix (env\<lparr>KV := snd (handleCreate parses now env request)\<rparr>)
       = \<lparr>urlCount = Num c', urlPrefix = Num p'\<rparr>" "0 \<le> c'" "c' < 1000" "0 \<le> p'"
    by blast
  from Cons.IH [OF this] show ?case by (simp add: post)
qed

lemma submissions_append:
  "submissions parses env (xs @ ys) = submissions parses (submissions parses env xs) ys"
  by (induction xs arbitrary: env) auto

text \<open>
  An entry is left alone by every sequence of submissions of which no accepted one has
  its shard and its clock reading.
\<close>

lemma submissions_keep_stamp:
  assumes "(P, now) \<notin> set (stamps parses env posts)"
  shows "KV_get (KV (submissions parses env posts)) (''url.'' @ toString P @ ''.'' @ toString (Num now))
         = KV_get (KV env) (''url.'' @ toString P @ ''.'' @ toString (Num now))"
  using assms
proof (induction posts arbitrary: env)
  case Nil
  then show ?case by simp
next
  case (Cons post posts)
  obtain request t where post: "post = (request, t)" by (cases post)
  let ?k = "''url.'' @ toString P @ ''.'' @ toString (Num now)"
  let ?env' = "env\<lparr>KV := snd (handleCreate parses t env request)\<rparr>"
  from Cons.prems post have rest: "(P, now) \<notin> set (stamps parses ?env' posts)" by simp
  have step: "KV_get (snd (handleCreate parses t env request)) ?k = KV_get (KV env) ?k"
  proof (cases "accepted parses env request")
    case True
    with Cons.prems post have "(P, now) \<noteq> (urlPrefix (getUrlCountAndPrefix env), t)" by auto
    then have "?k \<noteq> entryKey env t"
      using entry_key_inj [of P now "urlPrefix (getUrlCountAndPrefix env)" t]
      by (auto simp: entryKey_def)
    moreover have "startsWith ?k ''url.''" by (simp add: startsWith_def)
    ultimately show ?thesis by (rule handleCreate_other_key)
  next
    case False
    then show ?thesis by (simp add: handleCreate_rejected)
  qed
  with Cons.IH [OF rest] show ?case by (simp add: post)
qed

lemma stamps_times: "(P, t) \<in> set (stamps parses env posts) \<Longrightarrow> t \<in> snd ` set posts"
proof (induction posts arbitrary: env)
  case Nil
  then show ?case by simp
next
  case (Cons post posts)
  obtain request now where post: "post = (request, now)" by (cases post)
  from Cons.prems have "(P, t) = (urlPrefix (getUrlCountAndPrefix env), now)
      \<or> (P, t) \<in> set (stamps parses (env\<lparr>KV := snd (handleCreate parses now env request)\<rparr>) posts)"
    by (auto simp: post split: if_splits)
  then show ?case
  proof
    assume "(P, t) = (urlPrefix (getUrlCountAndPrefix env), now)"
    then show ?thesis by (simp add: post)
  next
    assume "(P, t) \<in> set (stamps parses (env\<lparr>KV := snd (handleCreate parses now env request)\<rparr>) posts)"
    from Cons.IH [OF this] show ?thesis by simp
  qed
qed

lemma submissions_keep_entry:
  assumes "now \<notin> snd ` set posts"
  shows "KV_get (KV (submissions parses env posts)) (''url.'' @ toString P @ ''.'' @ toString (Num now))
         = KV_get (KV env) (''url.'' @ toString P @ ''.'' @ toString (Num now))"
proof (rule submissions_keep_stamp)
  show "(P, now) \<notin> set (stamps parses env posts)" using assms stamps_times by blast
qed

lemma ticks_step:
  "submissions parses env (ticks request m (m + Suc n)) =
     submissions parses (env\<lparr>KV := snd (handleCreate parses (int m) env request)\<rparr>)
       (ticks request (Suc m) (Suc m + n))"
  by (simp add: ticks_def upt_conv_Cons del: upt_Suc)

lemma ticks_counters:
  assumes "getUrlCountAndPrefix env = \<lparr>urlCount = Num c, urlPrefix = Num p\<rparr>"
    and "0 \<le> c" and "c < 1000" and "accepted parses env request"
  shows "getUrlCountAndPrefix (submissions parses env (ticks request m (m + n))) =
           \<lparr>urlCount = Num ((c + int n) mod 1000), urlPrefix = Num (p + (c + int n) div 1000)\<rparr>"
  using assms
proof (induction n arbitrary: env c p m)
  case 0
  then show ?case by (simp add: ticks_def)
next
  case (Suc n)
  let ?env' = "env\<lparr>KV := snd (handleCreate parses (int m) env request)\<rparr>"
  have acc': "accepted parses ?env' request" using Suc.prems(4) by simp
  note step = handleCreate_accepted_counter [OF Suc.prems(1) Suc.prems(4), of "int m"]
  show ?case
  proof (cases "c + 1 = 1000")
    case True
    have step': "getUrlCountAndPrefix ?env' = \<lparr>urlCount = Num 0, urlPrefix = Num (p + 1)\<rparr>"
      using step True by simp
    have ar: "(c + int (Suc n)) mod 1000 = (0 + int n) mod 1000"
      "p + (c + int (Suc n)) div 1000 = p + 1 + (0 + int n) div 1000"
    proof -
      from True have c: "c + int (Suc n) = int n + 1000" by simp
      show "(c + int (Suc n)) mod 1000 = (0 + int n) mod 1000" unfolding c by simp
      show "p + (c + int (Suc n)) div 1000 = p + 1 + (0 + int n) div 1000" unfolding c by simp
    qed
    have "getUrlCountAndPrefix (submissions parses ?env' (ticks request (Suc m) (Suc m + n))) =
        \<lparr>urlCount = Num ((0 + int n) mod 1000), urlPrefix = Num (p + 1 + (0 + int n) div 1000)\<rparr>"
      by (rule Suc.IH [OF step' _ _ acc']) simp_all
    then show ?thesis by (simp only: ticks_step ar)
  next
    case False
    have step': "getUrlCountAndPrefix ?env' = \<lparr>urlCount = Num (c + 1), urlPrefix = Num p\<rparr>"
      using step False by simp
    have bounds: "0 \<le> c + 1" "c + 1 < 1000" using False Suc.prems(2,3) by simp_all
    have ar: "c + int (Suc n) = c + 1 + int n" by simp
    have "getUrlCountAndPrefix (submissions parses ?env' (ticks request (Suc m) (Suc m + n))) =
        \<lparr>urlCount = Num ((c + 1 + int n) mod 1000), urlPrefix = Num (p + (c + 1 + int n) div 1000)\<rparr>"
      by (rule Suc.IH [OF step' bounds acc'])
    then show ?thesis by (simp only: ticks_step ar)
  qed
qed

lemma ticks_split:
  assumes "t < n"
  shows "ticks request 0 n = ticks request 0 t @ (request, int t) # ticks request (Suc t) n"
proof -
  have "[0..<n] = [0..<t] @ t # [Suc t..<n]"
    using assms by (metis le_add1 less_imp_add_positive upt_add_eq_append upt_conv_Cons plus_nat.add_0 less_or_eq_imp_le)
  then show ?thesis by (simp add: ticks_def)
qed

lemma ticks_entry:
  assumes "KV env = []" and "accepted parses env request" and "t < n"
  shows "KV_get (KV (submissions parses env (ticks request 0 n)))
           (''url.'' @ toString (Num (int t div 1000)) @ ''.'' @ toString (Num (int t)))
         = Some (req_body request)"
proof -
  let ?env1 = "submissions parses env (ticks request 0 t)"
  let ?env2 = "?env1\<lparr>KV := snd (handleCreate parses (int t) ?env1 request)\<rparr>"
  let ?k = "''url.'' @ toString (Num (int t div 1000)) @ ''.'' @ toString (Num (int t))"
  have boot: "getUrlCountAndPrefix env = \<lparr>urlCount = Num 0, urlPrefix = Num 0\<rparr>"
    using assms(1) by (rule counters_empty)
  have "getUrlCountAndPrefix (submissions parses env (ticks request 0 (0 + t))) =
      \<lparr>urlCount = Num ((0 + int t) mod 1000), urlPrefix = Num (0 + (0 + int t) div 1000)\<rparr>"
    using boot _ _ assms(2) by (rule ticks_counters) simp_all
  then have key: "entryKey ?env1 (int t) = ?k" by (simp add: entryKey_def)
  have acc: "accepted parses ?env1 request" using assms(2) by simp
  have written: "KV_get (KV ?env2) ?k = Some (req_body request)"
    using handleCreate_entry [OF acc, of "int t"] by (simp add: key)
  have later: "int t \<notin> snd ` set (ticks request (Suc t) n)" by (auto simp: ticks_def)
  have "submissions parses env (ticks request 0 n) = submissions parses ?env2 (ticks request (Suc t) n)"
    by (simp add: ticks_split [OF assms(3)] submissions_append)
  then show ?thesis using submissions_keep_entry [OF later, of parses ?env2 "Num (int t div 1000)"] written
    by simp
qed

section \<open>Listings\<close>

lemma set_KV_matching: "set (KV_matching s p) = {k \<in> fst ` set s. startsWith k p}"
  by (auto simp: KV_matching_def)

lemma KV_get_matching:
  assumes "KV_get s k = Some v" and "startsWith k p"
  shows "k \<in> set (KV_matching s p)"
proof -
  from assms(1) have "(k, v) \<in> set s" unfolding KV_get_def by (rule map_of_SomeD)
  then have "k \<in> fst ` set s" by force
  with assms(2) show ?thesis by (simp add: set_KV_matching)
qed

lemma toString_1: "toString (Num 1) = ''1''"
  by (simp add: toString_def decimal.simps digit_def)

lemma toString_10: "toString (Num 10) = ''10''"
  by (simp add: toString_def decimal.simps digit_def)

lemma toString_10000: "toString (Num 10000) = ''10000''"
  by (simp add: toString_def decimal.simps digit_def)

section \<open>Concrete runs\<close>

lemmas run_defs =
  handleCreate_def Let_def secretMismatch_def getUrlCountAndPrefix_def getUrlCount_def
  getUrlPrefix_def KV_get_def or_zero_def parseInt_def startsWith_def digitValue_def
  isWhiteSpace_def toString_def decimal.simps digit_def encodeURIComponent_def uriUnreserved_def
  hexDigit_def emptyEnv_def postOf_def getOf_def

lemmas get_defs =
  handleGet_def endsWith_def estimatedTotalUrlCount_def targetUrlPrefix_def KV_list_def
  KV_matching_def handleStats_def stringify_def jsonNumber_def

lemma one_submission:
  "submissions top emptyEnv [(postOf ''http://a'', 5)] =
     \<lparr>KV = [(''url.0.5'', ''http://a''), (''urlKey.http%3A%2F%2Fa'', ''url.0.5''), (''urlCount'', ''1'')],
      SECRET = None, ALLOWED_ORIGIN = ''*''\<rparr>"
  by (simp add: run_defs)


section \<open>The claims\<close>

subsection \<open>Retrieval from an empty listing\<close>

text \<open>
  Claim C1 (a retrieval whose shard listing is empty returns an explicit no-content
  result and never reads an index outside the key list). The code has no such guard:
  whenever the listing of the targeted shard is empty, a retrieval that is not a stats
  request evaluates \<^verbatim>\<open>results.keys[0].name\<close> on the empty list and ends in a
  \<^verbatim>\<open>TypeError\<close>.
\<close>

theorem handleGet_empty_listing_faults:
  assumes "\<not> endsWith (req_url request) ''/stats''"
    and "KV_list (KV env) (''url.'' @ toString (targetUrlPrefix (rand r1
           (estimatedTotalUrlCount (urlCount (getUrlCountAndPrefix env))
              (urlPrefix (getUrlCountAndPrefix env)))))) = []"
  shows "handleGet r1 r2 env request = Inl TypeError"
  using assms by (simp add: handleGet_def Let_def)

text \<open>The completely empty store: the estimated total is 0 and the retrieval faults.\<close>

theorem handleGet_empty_store_faults:
  "estimatedTotalUrlCount (urlCount (getUrlCountAndPrefix emptyEnv))
       (urlPrefix (getUrlCountAndPrefix emptyEnv)) = Num 0
   \<and> handleGet (1 / 2) (1 / 2) emptyEnv (getOf ''https://r.example/'') = Inl TypeError
   \<and> fst (fetch top 0 (1 / 2) (1 / 2) (getOf ''https://r.example/'') emptyEnv) = Inl TypeError"
proof -
  have get: "req_method (getOf ''https://r.example/'') = ''GET''" by (simp add: getOf_def)
  have total: "estimatedTotalUrlCount (urlCount (getUrlCountAndPrefix emptyEnv))
       (urlPrefix (getUrlCountAndPrefix emptyEnv)) = Num 0"
    by (simp add: counters_empty emptyEnv_def estimatedTotalUrlCount_def)
  have root: "\<not> endsWith (req_url (getOf ''https://r.example/'')) ''/stats''"
    by (simp add: getOf_def endsWith_def)
  have listing: "KV_list (KV emptyEnv) (''url.'' @ toString (targetUrlPrefix (rand (1 / 2)
           (estimatedTotalUrlCount (urlCount (getUrlCountAndPrefix emptyEnv))
              (urlPrefix (getUrlCountAndPrefix emptyEnv)))))) = []"
    by (simp add: emptyEnv_def KV_list_def KV_matching_def)
  from handleGet_empty_listing_faults [OF root listing, of "1 / 2"] total show ?thesis
    by (simp add: fetch_def get)
qed

subsection \<open>The counter after a submission\<close>

text \<open>
  Claim C2. A submission answered with 201, handled when the counter state loaded from the
  store is \<open>(urlCount = k, urlPrefix = p)\<close>, leaves the stored counter state at
  \<open>(0, p + 1)\<close> if \<open>k + 1\<close> is exactly 1000 and at \<open>(k + 1, p)\<close> otherwise (the test is an
  equality, so also beyond 1000).
\<close>

theorem handleCreate_counter:
  assumes "getUrlCountAndPrefix env = \<lparr>urlCount = Num k, urlPrefix = Num p\<rparr>"
    and "fst (handleCreate parses now env request) = status 201"
  shows "getUrlCountAndPrefix (env\<lparr>KV := snd (handleCreate parses now env request)\<rparr>) =
     (if k + 1 = 1000 then \<lparr>urlCount = Num 0, urlPrefix = Num (p + 1)\<rparr>
      else \<lparr>urlCount = Num (k + 1), urlPrefix = Num p\<rparr>)"
proof -
  have "accepted parses env request"
    using assms(2) by (simp add: handleCreate_status split: if_splits)
  with assms(1) show ?thesis by (rule handleCreate_accepted_counter)
qed

text \<open>The 1000th submission into shard 0, and the first submission into an empty store.\<close>

theorem handleCreate_counter_witness:
  "getUrlCountAndPrefix
     (emptyEnv\<lparr>KV := snd (handleCreate top 5 (emptyEnv\<lparr>KV := [(''urlCount'', ''999'')]\<rparr>)
        (postOf ''http://a''))\<rparr>)
     = \<lparr>urlCount = Num 0, urlPrefix = Num 1\<rparr>
   \<and> getUrlCountAndPrefix (emptyEnv\<lparr>KV := snd (handleCreate top 5 emptyEnv (postOf ''http://a''))\<rparr>)
     = \<lparr>urlCount = Num 1, urlPrefix = Num 0\<rparr>"
proof -
  let ?env = "emptyEnv\<lparr>KV := [(''urlCount'', ''999'')]\<rparr>"
  have 1: "getUrlCountAndPrefix ?env = \<lparr>urlCount = Num 999, urlPrefix = Num 0\<rparr>"
    by (simp add: emptyEnv_def getUrlCountAndPrefix_def getUrlCount_def getUrlPrefix_def KV_get_def
        or_zero_def parseInt_def startsWith_def digitValue_def isWhiteSpace_def)
  have 2: "fst (handleCreate top 5 ?env (postOf ''http://a'')) = status 201"
    by (simp add: handleCreate_status accepted_def secretMismatch_def startsWith_def emptyEnv_def
        postOf_def)
  have 3: "getUrlCountAndPrefix emptyEnv = \<lparr>urlCount = Num 0, urlPrefix = Num 0\<rparr>"
    by (simp add: counters_empty emptyEnv_def)
  have 4: "fst (handleCreate top 5 emptyEnv (postOf ''http://a'')) = status 201"
    by (simp add: handleCreate_status accepted_def secretMismatch_def startsWith_def emptyEnv_def
        postOf_def)
  from handleCreate_counter [OF 1 2] handleCreate_counter [OF 3 4] show ?thesis by simp
qed

subsection \<open>Shard selection\<close>



subsection \<open>The estimated total\<close>

text \<open>
  Claim C4. The estimated total that \<^verbatim>\<open>handleGet\<close> computes from the counter state is
  \<open>urlPrefix * 1000 + urlCount\<close>; it is 20 for \<open>(20, 0)\<close> and 2500 for \<open>(500, 2)\<close>.
\<close>

theorem estimatedTotalUrlCount_formula:
  "estimatedTotalUrlCount (Num c) (Num p) = Num (p * 1000 + c)
   \<and> estimatedTotalUrlCount (Num 20) (Num 0) = Num 20
   \<and> estimatedTotalUrlCount (Num 500) (Num 2) = Num 2500"
  by (simp add: estimatedTotalUrlCount_def)

subsection \<open>The random draw\<close>

text \<open>
  Claim C5 (the draw fails fast at a bound \<open>\<le> 0\<close> and returns an integer of \<open>[0, max)\<close> at
  a bound \<open>> 0\<close>). The second half holds (\<open>rand_within\<close>). The first does not:
  \<^verbatim>\<open>rand\<close>, whose comment says that it draws a number between 0 and \<open>max\<close>, exclusive, has
  no guard. At the bound 0 it returns 0 for every value of \<^verbatim>\<open>Math.random()\<close>, the index
  with which \<^verbatim>\<open>handleGet\<close> then reads the empty key list; at the bound \<open>- 5\<close> it returns
  \<open>- 3\<close> for the value \<open>1 / 2\<close> and the bound \<open>- 5\<close> itself for the value \<open>9 / 10\<close>.
\<close>

theorem rand_nonpositive_bound:
  "rand r (Num 0) = Num 0
   \<and> rand (1 / 2) (Num (- 5)) = Num (- 3)
   \<and> rand (9 / 10) (Num (- 5)) = Num (- 5)"
  by simp

subsection \<open>The listing of a shard\<close>

text \<open>
  Claim C6 (the keys matched by the listing prefix of shard \<open>s\<close> are exactly the entries
  written into shard \<open>s\<close>, hence at most 1000). The prefix that \<^verbatim>\<open>handleGet\<close> lists is
  \<^verbatim>\<open>`url.${targetUrlPrefix}`\<close>, without the dot that ends the shard index in a key. After
  10001 accepted submissions at the clock readings \<open>0, \<dots>, 10000\<close> the counter state is
  \<open>(urlCount = 1, urlPrefix = 10)\<close>, and the prefix of shard 1 matches the key
  \<^verbatim>\<open>url.10.10000\<close> of shard 10 besides the 1000 keys of shard 1: more than 1000 keys.
\<close>

theorem shard_listing_overlap:
  "getUrlCountAndPrefix (submissions top emptyEnv (ticks (postOf ''http://a'') 0 10001))
     = \<lparr>urlCount = Num 1, urlPrefix = Num 10\<rparr>
   \<and> KV_get (KV (submissions top emptyEnv (ticks (postOf ''http://a'') 0 10001))) ''url.10.10000''
     = Some ''http://a''
   \<and> ''url.10.10000'' \<in> set (KV_matching (KV (submissions top emptyEnv (ticks (postOf ''http://a'') 0 10001)))
          (''url.'' @ toString (Num 1)))
   \<and> 1000 < length (KV_matching (KV (submissions top emptyEnv (ticks (postOf ''http://a'') 0 10001)))
          (''url.'' @ toString (Num 1)))"
proof -
  let ?S = "KV (submissions top emptyEnv (ticks (postOf ''http://a'') 0 10001))"
  let ?p = "''url.'' @ toString (Num 1)"
  let ?f = "\<lambda>t::nat. ''url.1.'' @ toString (Num (int t))"
  have empty: "KV emptyEnv = []" by (simp add: emptyEnv_def)
  have acc: "accepted top emptyEnv (postOf ''http://a'')"
    by (simp add: accepted_def secretMismatch_def emptyEnv_def postOf_def startsWith_def)
  have body: "req_body (postOf ''http://a'') = ''http://a''" by (simp add: postOf_def)
  have boot: "getUrlCountAndPrefix emptyEnv = \<lparr>urlCount = Num 0, urlPrefix = Num 0\<rparr>"
    using empty by (rule counters_empty)
  have "getUrlCountAndPrefix (submissions top emptyEnv (ticks (postOf ''http://a'') 0 (0 + 10001))) =
      \<lparr>urlCount = Num ((0 + int 10001) mod 1000), urlPrefix = Num (0 + (0 + int 10001) div 1000)\<rparr>"
    using boot _ _ acc by (rule ticks_counters) simp_all
  then have counters: "getUrlCountAndPrefix (submissions top emptyEnv (ticks (postOf ''http://a'') 0 10001))
      = \<lparr>urlCount = Num 1, urlPrefix = Num 10\<rparr>"
    by simp
  note entry = ticks_entry [OF empty acc, of _ 10001, unfolded body]
  have "KV_get ?S (''url.'' @ toString (Num (int 10000 div 1000)) @ ''.'' @ toString (Num (int 10000)))
      = Some ''http://a''"
    by (rule entry) simp
  then have ten: "KV_get ?S ''url.10.10000'' = Some ''http://a''"
    by (simp add: toString_10 toString_10000)
  have ten_listed: "''url.10.10000'' \<in> set (KV_matching ?S ?p)"
    using ten by (rule KV_get_matching) (simp add: toString_1 startsWith_def)
  have one_listed: "?f t \<in> set (KV_matching ?S ?p)" if "t \<in> {1000..<2000}" for t
  proof -
    from that have "t < 10001" and "int t div 1000 = 1" by auto
    with entry [of t] have "KV_get ?S (?f t) = Some ''http://a''"
      by (simp add: toString_1)
    then show ?thesis by (rule KV_get_matching) (simp add: toString_1 startsWith_def)
  qed
  have "inj_on ?f {1000..<2000}"
    by (rule inj_onI) (auto dest: toString_inj)
  then have "card (?f ` {1000..<2000}) = 1000" by (simp add: card_image)
  moreover have "''url.10.10000'' \<notin> ?f ` {1000..<2000}" by auto
  ultimately have "card (insert ''url.10.10000'' (?f ` {1000..<2000})) = 1001" by simp
  moreover have "insert ''url.10.10000'' (?f ` {1000..<2000}) \<subseteq> set (KV_matching ?S ?p)"
    using ten_listed one_listed by auto
  ultimately have "1001 \<le> card (set (KV_matching ?S ?p))"
    by (metis card_mono List.finite_set)
  moreover have "distinct (KV_matching ?S ?p)" by (simp add: KV_matching_def)
  ultimately have "1001 \<le> length (KV_matching ?S ?p)" by (simp add: distinct_card)
  with counters ten ten_listed show ?thesis by simp
qed

subsection \<open>Rejected submissions\<close>

text \<open>
  Claim C7, as the code has it. A submission whose body starts with neither
  \<^verbatim>\<open>http://\<close> nor \<^verbatim>\<open>https://\<close>, or which \<^verbatim>\<open>new URL\<close> rejects, is answered
  with 400 when it passes the authorization gate and with 401 when it does not (the gate
  comes first); in both cases the store is left as it was.
\<close>

theorem handleCreate_rejects_invalid:
  assumes "(\<not> startsWith (req_body request) ''http://'' \<and> \<not> startsWith (req_body request) ''https://'')
           \<or> \<not> parses (req_body request)"
  shows "handleCreate parses now env request =
           (if secretMismatch env request then (status 401, KV env) else (status 400, KV env))"
  using assms by (auto simp: handleCreate_def Let_def)

theorem handleCreate_rejects_invalid_witness:
  "handleCreate top 5 emptyEnv (postOf ''ftp://example.com'') = (status 400, [])"
  using handleCreate_rejects_invalid [of "postOf ''ftp://example.com''" top 5 emptyEnv]
  by (simp add: startsWith_def secretMismatch_def postOf_def emptyEnv_def)

text \<open>
  With a secret configured, the same body sent without the \<^verbatim>\<open>Authorization\<close> header is
  answered with 401, not 400.
\<close>

theorem handleCreate_unauthorized_counterexample:
  "fst (handleCreate top 5 (emptyEnv\<lparr>SECRET := Some ''s3cret''\<rparr>) (postOf ''ftp://example.com''))
     = status 401
   \<and> status 401 \<noteq> status 400"
  by (simp add: handleCreate_def secretMismatch_def emptyEnv_def postOf_def)

subsection \<open>The counter invariant\<close>

text \<open>
  Claim C8. An empty store loads as \<open>(urlCount = 0, urlPrefix = 0)\<close>, and after any
  sequence of submissions handled one after the other from the empty store (accepted or
  not) the stored counter state is a pair of integers with \<open>0 \<le> urlCount \<le> 1000\<close> and
  \<open>0 \<le> urlPrefix\<close>.
\<close>

theorem counter_state_invariant:
  "getUrlCountAndPrefix \<lparr>KV = [], SECRET = secret, ALLOWED_ORIGIN = origin\<rparr>
     = \<lparr>urlCount = Num 0, urlPrefix = Num 0\<rparr>
   \<and> (\<exists>c p. getUrlCountAndPrefix
          (submissions parses \<lparr>KV = [], SECRET = secret, ALLOWED_ORIGIN = origin\<rparr> posts)
        = \<lparr>urlCount = Num c, urlPrefix = Num p\<rparr> \<and> 0 \<le> c \<and> c \<le> 1000 \<and> 0 \<le> p)"
proof -
  let ?env = "\<lparr>KV = [], SECRET = secret, ALLOWED_ORIGIN = origin\<rparr>"
  have boot: "getUrlCountAndPrefix ?env = \<lparr>urlCount = Num 0, urlPrefix = Num 0\<rparr>"
    by (simp add: counters_empty)
  from submissions_invariant [OF boot, of parses posts]
  obtain c p where "getUrlCountAndPrefix (submissions parses ?env posts)
      = \<lparr>urlCount = Num c, urlPrefix = Num p\<rparr>" "0 \<le> c" "c < 1000" "0 \<le> p"
    by auto
  then have "\<exists>c p. getUrlCountAndPrefix (submissions parses ?env posts)
        = \<lparr>urlCount = Num c, urlPrefix = Num p\<rparr> \<and> 0 \<le> c \<and> c \<le> 1000 \<and> 0 \<le> p"
    by (intro exI [of _ c] exI [of _ p]) simp
  with boot show ?thesis by blast
qed

subsection \<open>Round trip of a submitted URL\<close>




subsection \<open>Dispatch of retrievals\<close>

text \<open>
  Claim C10. A GET whose full URL ends with \<^verbatim>\<open>/stats\<close> is answered by
  \<^verbatim>\<open>handleStats\<close> (behind the authorization gate), whatever the random draws would be.
  Any other GET is answered by the sampling flow, with no authorization check: its result
  depends neither on the configured secret nor on the \<^verbatim>\<open>Authorization\<close> header, and it
  is what sampling gives. The counter state is loaded, a target is drawn below the
  estimated total and mapped to its shard, the keys of that shard's prefix are listed, and
  either the list is empty and the handler faults, or the response has status 200, the
  allowed-origin header and as its body the value stored under the listed key whose index
  is drawn below the size of the list.
\<close>

theorem handleGet_dispatch:
  "(endsWith (req_url request) ''/stats'' \<longrightarrow>
      (\<forall>r1 r2. handleGet r1 r2 env request = Inr (handleStats env request)))
   \<and> (\<not> endsWith (req_url request) ''/stats'' \<longrightarrow>
      (\<forall>secret auth. handleGet r1 r2 (env\<lparr>SECRET := secret\<rparr>) (request\<lparr>authorization := auth\<rparr>)
         = handleGet r1 r2 env request)
      \<and> (0 \<le> r2 \<and> r2 < 1 \<longrightarrow>
          handleGet r1 r2 env request =
            (let total = estimatedTotalUrlCount (getUrlCount env) (getUrlPrefix env);
                 results = KV_list (KV env) (''url.'' @ toString (targetUrlPrefix (rand r1 total)))
             in if results = [] then Inl TypeError
                else Inr \<lparr>status_code = 200,
                          body = KV_get (KV env) (results ! nat \<lfloor>r2 * real (length results)\<rfloor>),
                          headers = [(''Access-Control-Allow-Origin'', ALLOWED_ORIGIN env)]\<rparr>)))"
proof (intro conjI impI allI)
  fix r1' r2' :: real
  assume "endsWith (req_url request) ''/stats''"
  then show "handleGet r1' r2' env request = Inr (handleStats env request)"
    by (simp add: handleGet_def)
next
  fix secret auth
  assume "\<not> endsWith (req_url request) ''/stats''"
  then show "handleGet r1 r2 (env\<lparr>SECRET := secret\<rparr>) (request\<lparr>authorization := auth\<rparr>)
      = handleGet r1 r2 env request"
    by (simp add: handleGet_def Let_def getUrlCountAndPrefix_def getUrlCount_def getUrlPrefix_def)
next
  let ?total = "estimatedTotalUrlCount (getUrlCount env) (getUrlPrefix env)"
  let ?results = "KV_list (KV env) (''url.'' @ toString (targetUrlPrefix (rand r1 ?total)))"
  assume other: "\<not> endsWith (req_url request) ''/stats''" and r2: "0 \<le> r2 \<and> r2 < 1"
  have flow: "handleGet r1 r2 env request =
      (case key_name ?results (rand r2 (Num (int (length ?results)))) of
         Inl e \<Rightarrow> Inl e
       | Inr name \<Rightarrow> Inr \<lparr>status_code = 200, body = KV_get (KV env) name,
            headers = [(''Access-Control-Allow-Origin'', ALLOWED_ORIGIN env)]\<rparr>)"
    using other by (simp add: handleGet_def Let_def getUrlCountAndPrefix_def)
  have "handleGet r1 r2 env request =
      (if ?results = [] then Inl TypeError
       else Inr \<lparr>status_code = 200,
              body = KV_get (KV env) (?results ! nat \<lfloor>r2 * real (length ?results)\<rfloor>),
              headers = [(''Access-Control-Allow-Origin'', ALLOWED_ORIGIN env)]\<rparr>)"
  proof (cases "?results = []")
    case True
    then show ?thesis by (simp add: flow)
  next
    case False
    then have "0 < int (length ?results)" by simp
    from rand_within [OF _ _ this, of r2] r2
    have "key_name ?results (rand r2 (Num (int (length ?results))))
        = Inr (?results ! nat \<lfloor>r2 * real (length ?results)\<rfloor>)"
      by simp
    with False show ?thesis by (simp add: flow)
  qed
  then show "handleGet r1 r2 env request =
            (let total = estimatedTotalUrlCount (getUrlCount env) (getUrlPrefix env);
                 results = KV_list (KV env) (''url.'' @ toString (targetUrlPrefix (rand r1 total)))
             in if results = [] then Inl TypeError
                else Inr \<lparr>status_code = 200,
                          body = KV_get (KV env) (results ! nat \<lfloor>r2 * real (length results)\<rfloor>),
                          headers = [(''Access-Control-Allow-Origin'', ALLOWED_ORIGIN env)]\<rparr>)"
    by (simp only: Let_def)
qed

text \<open>
  With a secret configured and no \<^verbatim>\<open>Authorization\<close> header: \<^verbatim>\<open>/anything/stats\<close> is
  refused with 401, while the root URL returns the stored URL.
\<close>

theorem handleGet_dispatch_witness:
  "handleGet (1 / 2) (1 / 2) (emptyEnv\<lparr>SECRET := Some ''s3cret''\<rparr>) (getOf ''https://r.example/anything/stats'')
     = Inr (status 401)
   \<and> handleGet (1 / 2) (1 / 2) ((submissions top emptyEnv [(postOf ''http://a'', 5)])\<lparr>SECRET := Some ''s3cret''\<rparr>)
       (getOf ''https://r.example/'')
     = Inr \<lparr>status_code = 200, body = Some ''http://a'',
            headers = [(''Access-Control-Allow-Origin'', ''*'')]\<rparr>"
proof -
  let ?stored = "submissions top emptyEnv [(postOf ''http://a'', 5)]"
  have stats: "endsWith (req_url (getOf ''https://r.example/anything/stats'')) ''/stats''"
    by (simp add: getOf_def endsWith_def)
  have root: "\<not> endsWith (req_url (getOf ''https://r.example/'')) ''/stats''"
    by (simp add: getOf_def endsWith_def)
  have half: "0 \<le> (1 / 2 :: real) \<and> (1 / 2 :: real) < 1" by simp
  note other = handleGet_dispatch [of "getOf ''https://r.example/''" ?stored "1 / 2" "1 / 2",
      THEN conjunct2, THEN mp, OF root]
  have a: "handleGet (1 / 2) (1 / 2) (emptyEnv\<lparr>SECRET := Some ''s3cret''\<rparr>)
      (getOf ''https://r.example/anything/stats'') = Inr (status 401)"
    using handleGet_dispatch [of "getOf ''https://r.example/anything/stats''" "emptyEnv\<lparr>SECRET := Some ''s3cret''\<rparr>"]
      stats
    by (simp add: handleStats_def secretMismatch_def getOf_def emptyEnv_def)
  have "handleGet (1 / 2) (1 / 2) (?stored\<lparr>SECRET := Some ''s3cret''\<rparr>)
       ((getOf ''https://r.example/'')\<lparr>authorization := None\<rparr>)
     = handleGet (1 / 2) (1 / 2) ?stored (getOf ''https://r.example/'')"
    using other [THEN conjunct1] by blast
  moreover have "handleGet (1 / 2) (1 / 2) ?stored (getOf ''https://r.example/'')
     = Inr \<lparr>status_code = 200, body = Some ''http://a'',
            headers = [(''Access-Control-Allow-Origin'', ''*'')]\<rparr>"
    unfolding other [THEN conjunct2, THEN mp, OF half]
    by (simp add: one_submission) (simp add: run_defs get_defs)
  moreover have "(getOf ''https://r.example/'')\<lparr>authorization := None\<rparr> = getOf ''https://r.example/''"
    by (simp add: getOf_def)
  ultimately show ?thesis using a by simp
qed

end
